theory Spec2Isabelle
  imports Complex_Main "HOL-Library.Word"
begin

unbundle bit_operations_syntax

section \<open>Machine integers and errors\<close>

type_synonym u16 = "16 word"
type_synonym u32 = "32 word"
type_synonym u64 = "64 word"

text \<open>
  Every error return and every run-time panic of the Go code is a value of this type.
  \<open>PanicIndex\<close> is an index or slice bound out of range, \<open>PanicDivZero\<close> the integer
  division by zero of \<open>x % 0\<close>.  The \<open>Err...\<close> constructors are the package's exported
  errors (errors.go) and its formatted errors.
\<close>

datatype error =
    PanicIndex
  | PanicDivZero
  | ErrMPHFail
  | ErrFrozen
  | ErrValueTooLarge
  | ErrExists
  | ErrNoKey
  | ErrTooSmall
  | ErrBadVersion
  | ErrBadLevels
  | ErrBadBitvector
  | ErrBadSeedSize
  | ErrPartialSeeds
  | ErrSeedMismatch
  | ErrCorruptRecord
  | ErrIO
  | PanicNil

definition bindE :: "error + 'a \<Rightarrow> ('a \<Rightarrow> error + 'b) \<Rightarrow> error + 'b" where
  "bindE m f = (case m of Inl e \<Rightarrow> Inl e | Inr x \<Rightarrow> f x)"

section \<open>Hash primitives (utils.go, bbhash.go, chd.go)\<close>

definition mix :: "u64 \<Rightarrow> u64" where
  "mix h0 = (let h1 = h0 XOR drop_bit 23 h0;
                 h2 = h1 * 0x2127599bf4325c37
             in h2 XOR drop_bit 47 h2)"

definition hash_m :: u64 where
  "hash_m = 0x880355f21e6d1965"

definition bhash :: "u64 \<Rightarrow> u64 \<Rightarrow> u32 \<Rightarrow> u64" where
  "bhash key salt lvl =
     (let h0 = hash_m;
          h1 = (h0 XOR mix key) * hash_m;
          h2 = (h1 XOR mix salt) * hash_m;
          h3 = (h2 XOR mix (ucast lvl)) * hash_m
      in mix h3)"

definition rhash :: "u32 \<Rightarrow> u64 \<Rightarrow> u64 \<Rightarrow> u64 \<Rightarrow> u64" where
  "rhash seed key sz salt =
     (let h0 = key;
          h1 = h0 * hash_m;
          h2 = (h1 XOR mix salt) * hash_m;
          h3 = (h2 XOR mix (ucast seed)) * hash_m
      in mix h3 AND (sz - 1))"

definition nextpow2 :: "u64 \<Rightarrow> u64" where
  "nextpow2 n0 =
     (let n1 = n0 - 1;
          n2 = n1 OR drop_bit 1 n1;
          n3 = n2 OR drop_bit 2 n2;
          n4 = n3 OR drop_bit 4 n3;
          n5 = n4 OR drop_bit 8 n4;
          n6 = n5 OR drop_bit 16 n5;
          n7 = n6 OR drop_bit 32 n6
      in n7 + 1)"

section \<open>Bit vectors (bitvector.go)\<close>

text \<open>
  The struct \<open>bitVector\<close> holds a mutex and the slice \<open>v\<close> of 64-bit words; the model is
  the slice.  \<open>popcount\<close> is \<open>bits.OnesCount64\<close>: the number of set bits of a word.
\<close>

type_synonym bitVector = "u64 list"

definition popcount :: "u64 \<Rightarrow> u64" where
  "popcount x = of_nat (length (filter (bit x) [0..<64]))"

definition newBitVector :: "u64 \<Rightarrow> bitVector" where
  "newBitVector sz0 =
     (let sz1 = sz0 + 63;
          sz2 = sz1 AND NOT 63;
          words = sz2 div 64
      in replicate (unat words) 0)"

definition Size :: "bitVector \<Rightarrow> u64" where
  "Size b = of_nat (length b) * 64"


definition Set_bit :: "bitVector \<Rightarrow> u64 \<Rightarrow> error + bitVector" where
  "Set_bit b i =
     (let w = push_bit (unat (i mod 64)) (1 :: u64);
          x = unat (i div 64)
      in if x < length b then Inr (b[x := (b ! x) OR w]) else Inl PanicIndex)"

definition IsSet :: "bitVector \<Rightarrow> u64 \<Rightarrow> error + bool" where
  "IsSet b i =
     (let x = unat (i div 64)
      in if x < length b
         then Inr (1 = (1 AND drop_bit (unat (i mod 64)) (b ! x)))
         else Inl PanicIndex)"

definition Reset :: "bitVector \<Rightarrow> bitVector" where
  "Reset b = map (\<lambda>_. 0) b"

fun Merge :: "bitVector \<Rightarrow> bitVector \<Rightarrow> error + bitVector" where
  "Merge b [] = Inr b"
| "Merge [] (z # zs) = Inl PanicIndex"
| "Merge (x # xs) (z # zs) =
     (case Merge xs zs of Inl e \<Rightarrow> Inl e | Inr r \<Rightarrow> Inr ((x OR z) # r))"

definition ComputeRank :: "bitVector \<Rightarrow> u64" where
  "ComputeRank b = foldl (\<lambda>p w. p + popcount w) 0 b"

definition Rank :: "bitVector \<Rightarrow> u64 \<Rightarrow> error + u64" where
  "Rank b i =
     (let x = unat (i div 64);
          y = unat (i mod 64)
      in if x < length b
         then Inr (foldl (\<lambda>r k. r + popcount (b ! k)) 0 [0..<x]
                   + popcount (push_bit (64 - y) (b ! x)))
         else Inl PanicIndex)"

subsection \<open>Counting bits\<close>

text \<open>
  Two auxiliary notions for stating what the rank functions compute: the number of set bits
  of one word, and bit \<open>j\<close> of a vector (word \<open>j div 64\<close>, position \<open>j mod 64\<close>).
\<close>

definition pc_nat :: "u64 \<Rightarrow> nat" where
  "pc_nat w = card {n. n < 64 \<and> bit w n}"

definition bitAt :: "bitVector \<Rightarrow> nat \<Rightarrow> bool" where
  "bitAt b j = bit (b ! (j div 64)) (j mod 64)"

section \<open>BBHash (bbhash.go)\<close>

text \<open>
  The fields of the Go structs are record fields with a prefix: \<open>bbHash.bits\<close> is \<open>bb_bits\<close>,
  \<open>state.A\<close> is \<open>st_A\<close>, \<open>bbHashBuilder.keys\<close> is \<open>bld_keys\<close>.  The pointer \<open>state.A\<close> can be
  nil, so it is an option.  The expansion factor (a float64 in Go) is a rational number and
  \<open>float64(n) * g\<close> is the exact product; this is what the machine computes whenever the
  product is representable (as for \<open>g\<close> = 2.0, 1.5, 0.5 and fewer than \<open>2^52\<close> keys), and the
  conversion to uint64 truncates.  \<open>rand64()\<close> is a parameter.  The concurrent construction
  (more than \<open>MinParallelKeys\<close> keys) runs goroutines on shared bit vectors; it is a parameter
  of \<open>Freeze\<close> and nothing is proved about it.
\<close>
record bbHash =
  bb_bits :: "bitVector list"
  bb_ranks :: "u64 list"
  bb_salt :: u64
  bb_g :: rat
  bb_n :: nat

record state =
  st_A :: "bitVector option"
  st_coll :: bitVector
  st_redo :: "u64 list"
  st_lvl :: u32
  st_bb :: bbHash

record bbHashBuilder =
  bld_keys :: "u64 list"
  bld_g :: rat

definition MaxLevel :: u32 where
  "MaxLevel = 4000"


definition NewBBHashBuilder :: "rat \<Rightarrow> error + bbHashBuilder" where
  "NewBBHashBuilder g = Inr \<lparr>bld_keys = [], bld_g = g\<rparr>"

definition bbHashBuilder_Add :: "bbHashBuilder \<Rightarrow> u64 \<Rightarrow> error + bbHashBuilder" where
  "bbHashBuilder_Add b key = Inr (b\<lparr>bld_keys := bld_keys b @ [key]\<rparr>)"

definition bvSize :: "bbHash \<Rightarrow> u64" where
  "bvSize bb = of_nat (nat \<lfloor>of_nat (bb_n bb) * bb_g bb\<rfloor>)"

definition newState :: "bbHash \<Rightarrow> state" where
  "newState bb =
     (let sz = bvSize bb
      in \<lparr>st_A = Some (newBitVector sz), st_coll = newBitVector sz, st_redo = [],
          st_lvl = 0, st_bb = bb\<rparr>)"

fun preprocess_loop ::
  "u64 \<Rightarrow> u32 \<Rightarrow> u64 \<Rightarrow> bitVector \<Rightarrow> bitVector \<Rightarrow> u64 list \<Rightarrow> error + bitVector \<times> bitVector" where
  "preprocess_loop salt lvl sz A coll [] = Inr (A, coll)"
| "preprocess_loop salt lvl sz A coll (k # ks) =
     (if sz = 0 then Inl PanicDivZero
      else let i = bhash k salt lvl mod sz
           in case IsSet coll i of
                Inl e \<Rightarrow> Inl e
              | Inr c \<Rightarrow>
                  if c then preprocess_loop salt lvl sz A coll ks
                  else (case IsSet A i of
                          Inl e \<Rightarrow> Inl e
                        | Inr a \<Rightarrow>
                            if a then (case Set_bit coll i of
                                         Inl e \<Rightarrow> Inl e
                                       | Inr coll' \<Rightarrow> preprocess_loop salt lvl sz A coll' ks)
                            else (case Set_bit A i of
                                    Inl e \<Rightarrow> Inl e
                                  | Inr A' \<Rightarrow> preprocess_loop salt lvl sz A' coll ks)))"

definition preprocess :: "state \<Rightarrow> u64 list \<Rightarrow> error + state" where
  "preprocess s keys =
     (case st_A s of
        None \<Rightarrow> Inl PanicNil
      | Some A \<Rightarrow>
          (case preprocess_loop (bb_salt (st_bb s)) (st_lvl s) (Size A) A (st_coll s) keys of
             Inl e \<Rightarrow> Inl e
           | Inr (A', coll') \<Rightarrow> Inr (s\<lparr>st_A := Some A', st_coll := coll'\<rparr>)))"

fun assign_loop ::
  "u64 \<Rightarrow> u32 \<Rightarrow> u64 \<Rightarrow> bitVector \<Rightarrow> bitVector \<Rightarrow> u64 list \<Rightarrow> u64 list \<Rightarrow> error + bitVector \<times> u64 list" where
  "assign_loop salt lvl sz A coll redo [] = Inr (A, redo)"
| "assign_loop salt lvl sz A coll redo (k # ks) =
     (if sz = 0 then Inl PanicDivZero
      else let i = bhash k salt lvl mod sz
           in case IsSet coll i of
                Inl e \<Rightarrow> Inl e
              | Inr c \<Rightarrow>
                  if c then assign_loop salt lvl sz A coll (redo @ [k]) ks
                  else (case Set_bit A i of
                          Inl e \<Rightarrow> Inl e
                        | Inr A' \<Rightarrow> assign_loop salt lvl sz A' coll redo ks))"

definition appendRedo :: "state \<Rightarrow> u64 list \<Rightarrow> state" where
  "appendRedo s k = s\<lparr>st_redo := st_redo s @ k\<rparr>"

definition assign :: "state \<Rightarrow> u64 list \<Rightarrow> error + state" where
  "assign s keys =
     (case st_A s of
        None \<Rightarrow> Inl PanicNil
      | Some A \<Rightarrow>
          (case assign_loop (bb_salt (st_bb s)) (st_lvl s) (Size A) A (st_coll s) [] keys of
             Inl e \<Rightarrow> Inl e
           | Inr (A', redo) \<Rightarrow>
               (let s' = s\<lparr>st_A := Some A'\<rparr>
                in Inr (if length redo > 0 then appendRedo s' redo else s'))))"

definition nextLevel :: "state \<Rightarrow> error + u64 list option \<times> state" where
  "nextLevel s =
     (case st_A s of
        None \<Rightarrow> Inl PanicNil
      | Some A \<Rightarrow>
          (let s1 = s\<lparr>st_bb := (st_bb s)\<lparr>bb_bits := bb_bits (st_bb s) @ [A]\<rparr>, st_A := None\<rparr>;
               keys = st_redo s1
           in if length keys = 0 then Inr (None, s1)
              else Inr (Some keys,
                        s1\<lparr>st_redo := [],
                           st_A := Some (newBitVector (bvSize (st_bb s1))),
                           st_coll := Reset (st_coll s1),
                           st_lvl := st_lvl s1 + 1\<rparr>)))"

fun preComputeRank_loop :: "u64 \<Rightarrow> bitVector list \<Rightarrow> u64 list" where
  "preComputeRank_loop pop [] = []"
| "preComputeRank_loop pop (bv # bvs) = pop # preComputeRank_loop (pop + ComputeRank bv) bvs"

definition preComputeRank :: "bbHash \<Rightarrow> bbHash" where
  "preComputeRank bb = bb\<lparr>bb_ranks := preComputeRank_loop 0 (bb_bits bb)\<rparr>"

text \<open>
  The loop of \<open>singleThread\<close> ends: the level counter grows by one in each round and the
  loop returns an error once it exceeds \<open>MaxLevel\<close>.
\<close>

function singleThread :: "state \<Rightarrow> u64 list \<Rightarrow> error + state" where
  "singleThread s keys =
     (case preprocess s keys of
        Inl e \<Rightarrow> Inl e
      | Inr s1 \<Rightarrow>
          (case st_A s1 of
             None \<Rightarrow> Inl PanicNil
           | Some A \<Rightarrow>
               (case assign (s1\<lparr>st_A := Some (Reset A)\<rparr>) keys of
                  Inl e \<Rightarrow> Inl e
                | Inr s2 \<Rightarrow>
                    (case nextLevel s2 of
                       Inl e \<Rightarrow> Inl e
                     | Inr (None, s3) \<Rightarrow> Inr (s3\<lparr>st_bb := preComputeRank (st_bb s3)\<rparr>)
                     | Inr (Some keys', s3) \<Rightarrow>
                         if st_lvl s3 > MaxLevel then Inl ErrMPHFail
                         else singleThread s3 keys'))))"
  by pat_completeness auto
termination
proof (relation "measure (\<lambda>(s, keys). if unat (st_lvl s) \<le> 4000 then 4001 - unat (st_lvl s) else 4002)")
  show "wf (measure (\<lambda>(s, keys). if unat (st_lvl s) \<le> 4000 then 4001 - unat (st_lvl s) else 4002))"
    by simp
next
  fix s :: state and keys s1 A s2 x keys' s3 y
  assume a: "preprocess s keys = Inr s1" "st_A s1 = Some A"
    "assign (s1\<lparr>st_A := Some (Reset A)\<rparr>) keys = Inr s2"
    "nextLevel s2 = Inr x" "(y, s3) = x" "y = Some keys'" "\<not> MaxLevel < st_lvl s3"
  have l1: "st_lvl s1 = st_lvl s"
    using a(1) by (auto simp: preprocess_def split: option.splits sum.splits prod.splits)
  have l2: "st_lvl s2 = st_lvl s1"
    using a(3) by (auto simp: assign_def appendRedo_def Let_def split: option.splits sum.splits prod.splits if_splits)
  have l3: "st_lvl s3 = st_lvl s2 + 1"
    using a(4,5,6) by (auto simp: nextLevel_def Let_def split: option.splits if_splits)
  have le: "unat (st_lvl s + 1) \<le> 4000"
    using a(7) l1 l2 l3 by (simp add: MaxLevel_def word_less_nat_alt not_less)
  have "unat (st_lvl s + 1) = (unat (st_lvl s) + 1) mod 2 ^ 32"
    by (simp add: unat_word_ariths)
  then have "unat (st_lvl s) \<le> 4000 \<longrightarrow> unat (st_lvl s + 1) = unat (st_lvl s) + 1"
    by simp
  then show "((s3, keys'), (s, keys)) \<in>
      measure (\<lambda>(s, keys). if unat (st_lvl s) \<le> 4000 then 4001 - unat (st_lvl s) else 4002)"
    using le l1 l2 l3 by auto
qed

declare singleThread.simps [simp del]

fun Find_loop :: "u64 \<Rightarrow> u64 \<Rightarrow> u64 list \<Rightarrow> nat \<Rightarrow> bitVector list \<Rightarrow> error + u64 \<times> bool" where
  "Find_loop k salt ranks lvl [] = Inr (0, False)"
| "Find_loop k salt ranks lvl (bv # bvs) =
     (if Size bv = 0 then Inl PanicDivZero
      else let i = bhash k salt (of_nat lvl) mod Size bv
           in case IsSet bv i of
                Inl e \<Rightarrow> Inl e
              | Inr t \<Rightarrow>
                  if \<not> t then Find_loop k salt ranks (lvl + 1) bvs
                  else if lvl < length ranks
                       then (case Rank bv i of
                               Inl e \<Rightarrow> Inl e
                             | Inr r \<Rightarrow> (let rank = 1 + ranks ! lvl + r in Inr (rank - 1, True)))
                       else Inl PanicIndex)"

definition bbHash_Find :: "bbHash \<Rightarrow> u64 \<Rightarrow> error + u64 \<times> bool" where
  "bbHash_Find bb k = Find_loop k (bb_salt bb) (bb_ranks bb) 0 (bb_bits bb)"

definition bbHash_Len :: "bbHash \<Rightarrow> nat" where
  "bbHash_Len bb = bb_n bb"


definition newSerial :: "u64 \<Rightarrow> rat \<Rightarrow> u64 list \<Rightarrow> error + bbHash" where
  "newSerial rand64 g0 keys =
     (let g = (if g0 \<le> 1 then 2 else g0);
          bb = \<lparr>bb_bits = [], bb_ranks = [], bb_salt = rand64, bb_g = g, bb_n = length keys\<rparr>;
          s = newState bb
      in case singleThread s keys of
           Inl e \<Rightarrow> Inl e
         | Inr s' \<Rightarrow> Inr (st_bb s'))"

subsection \<open>Marshalling (bbhash_marshal.go, bitvector.go)\<close>











section \<open>Properties of the bit vector\<close>

lemma filter_upt_card: "length (filter P [0..<n]) = card {k. k < n \<and> P k}"
proof -
  have "length (filter P [0..<n]) = card (set (filter P [0..<n]))"
    by (rule distinct_card [symmetric]) simp
  also have "set (filter P [0..<n]) = {k. k < n \<and> P k}" by auto
  finally show ?thesis by simp
qed

lemma pc_nat_le: "pc_nat w \<le> 64"
proof -
  have "card {n. n < 64 \<and> bit w n} \<le> card {..<(64::nat)}"
    by (rule card_mono) auto
  then show ?thesis by (simp add: pc_nat_def)
qed

lemma unat_popcount: "unat (popcount w) = pc_nat w"
proof -
  have "length (filter (bit w) [0..<64]) = pc_nat w"
    by (simp add: filter_upt_card pc_nat_def)
  moreover have "pc_nat w < 2 ^ 64" using pc_nat_le [of w] by simp
  ultimately show ?thesis
    by (simp add: popcount_def unat_of_nat)
qed

lemma pc_nat_shift:
  assumes "y < 64"
  shows "pc_nat (push_bit (64 - y) w) = card {m. m < y \<and> bit w m}"
proof -
  let ?f = "\<lambda>m. m + (64 - y)"
  have "{n. n < 64 \<and> bit (push_bit (64 - y) w) n} = ?f ` {m. m < y \<and> bit w m}"
  proof (rule set_eqI, rule iffI)
    fix n assume "n \<in> {n. n < 64 \<and> bit (push_bit (64 - y) w) n}"
    then have n: "n < 64" "64 - y \<le> n" "bit w (n - (64 - y))"
      by (auto simp: bit_push_bit_iff)
    then have "n - (64 - y) < y" using assms by arith
    with n have "n - (64 - y) \<in> {m. m < y \<and> bit w m}" by simp
    moreover have "n = ?f (n - (64 - y))" using n by simp
    ultimately show "n \<in> ?f ` {m. m < y \<and> bit w m}" by blast
  next
    fix n assume "n \<in> ?f ` {m. m < y \<and> bit w m}"
    then obtain m where m: "m < y" "bit w m" "n = m + (64 - y)" by auto
    then show "n \<in> {n. n < 64 \<and> bit (push_bit (64 - y) w) n}"
      using assms by (auto simp: bit_push_bit_iff)
  qed
  moreover have "inj_on ?f {m. m < y \<and> bit w m}" by (simp add: inj_on_def)
  ultimately show ?thesis by (simp add: pc_nat_def card_image)
qed


lemma popcount_of_nat: "popcount w = of_nat (pc_nat w)"
  by (simp add: popcount_def filter_upt_card pc_nat_def)

lemma count_split:
  assumes "y \<le> 64"
  shows "card {j. j < 64 * x + y \<and> bitAt b j}
         = card {j. j < 64 * x \<and> bitAt b j} + card {m. m < y \<and> bit (b ! x) m}"
proof -
  let ?A = "{j. j < 64 * x \<and> bitAt b j}"
  let ?B = "(\<lambda>m. 64 * x + m) ` {m. m < y \<and> bit (b ! x) m}"
  have un: "{j. j < 64 * x + y \<and> bitAt b j} = ?A \<union> ?B"
  proof (rule set_eqI, rule iffI)
    fix j assume "j \<in> {j. j < 64 * x + y \<and> bitAt b j}"
    then have j: "j < 64 * x + y" "bitAt b j" by auto
    show "j \<in> ?A \<union> ?B"
    proof (cases "j < 64 * x")
      case True
      with j show ?thesis by simp
    next
      case False
      define m where "m = j - 64 * x"
      have jm: "j = 64 * x + m" and my: "m < y" using False j(1) by (simp_all add: m_def)
      have "m < 64" using my assms by simp
      then have "j div 64 = x" "j mod 64 = m" by (simp_all add: jm)
      then have "bit (b ! x) m" using j(2) by (simp add: bitAt_def)
      with jm my have "j \<in> ?B" by blast
      then show ?thesis by simp
    qed
  next
    fix j assume "j \<in> ?A \<union> ?B"
    then show "j \<in> {j. j < 64 * x + y \<and> bitAt b j}"
    proof
      assume "j \<in> ?A" then show ?thesis by auto
    next
      assume "j \<in> ?B"
      then obtain m where m: "m < y" "bit (b ! x) m" "j = 64 * x + m" by auto
      then have "m < 64" using assms by simp
      then have "j div 64 = x" "j mod 64 = m" using m(3) by auto
      then show ?thesis using m by (simp add: bitAt_def)
    qed
  qed
  have disj: "?A \<inter> ?B = {}" by auto
  have fin: "finite ?A" "finite ?B" by auto
  have "inj_on (\<lambda>m. 64 * x + m) {m. m < y \<and> bit (b ! x) m}" by (simp add: inj_on_def)
  then have cB: "card ?B = card {m. m < y \<and> bit (b ! x) m}" by (rule card_image)
  show ?thesis unfolding un using card_Un_disjoint [OF fin disj] cB by simp
qed

lemma count_words:
  "card {j. j < 64 * x \<and> bitAt b j} = (\<Sum>k<x. pc_nat (b ! k))"
proof (induction x)
  case 0
  then show ?case by simp
next
  case (Suc x)
  have "64 * Suc x = 64 * x + 64" by simp
  then have "card {j. j < 64 * Suc x \<and> bitAt b j} = card {j. j < 64 * x + 64 \<and> bitAt b j}"
    by (simp only:)
  also have "\<dots> = card {j. j < 64 * x \<and> bitAt b j} + card {m. m < 64 \<and> bit (b ! x) m}"
    by (rule count_split) simp
  finally show ?case using Suc by (simp add: pc_nat_def)
qed

lemma rank_loop_sum:
  "foldl (\<lambda>r k. r + popcount (b ! k)) r0 [0..<x] = r0 + of_nat (\<Sum>k<x. pc_nat (b ! k))"
  by (induction x) (simp_all add: popcount_of_nat)

lemma count_le: "card {j. j < n \<and> P j} \<le> (n::nat)"
proof -
  have "card {j. j < n \<and> P j} \<le> card {..<n}" by (rule card_mono) auto
  then show ?thesis by simp
qed

lemma Rank_nat:
  assumes "unat i < length b * 64"
  shows "Rank b i = Inr (of_nat (card {j. j < unat i \<and> bitAt b j}))"
proof -
  let ?x = "unat i div 64" and ?y = "unat i mod 64"
  have x: "unat (i div 64) = ?x" and y: "unat (i mod 64) = ?y"
    by (simp_all add: unat_div unat_mod)
  have xl: "?x < length b" using assms by auto
  have "card {j. j < unat i \<and> bitAt b j} = card {j. j < 64 * ?x + ?y \<and> bitAt b j}"
    by simp
  also have "\<dots> = (\<Sum>k<?x. pc_nat (b ! k)) + card {m. m < ?y \<and> bit (b ! ?x) m}"
    using count_split [of ?y ?x b] count_words [of ?x b] by simp
  also have "card {m. m < ?y \<and> bit (b ! ?x) m} = pc_nat (push_bit (64 - ?y) (b ! ?x))"
    by (simp add: pc_nat_shift)
  finally have c: "card {j. j < unat i \<and> bitAt b j}
      = (\<Sum>k<?x. pc_nat (b ! k)) + pc_nat (push_bit (64 - ?y) (b ! ?x))" .
  have "foldl (\<lambda>r k. r + popcount (b ! k)) 0 [0..<?x] + popcount (push_bit (64 - ?y) (b ! ?x))
        = of_nat (card {j. j < unat i \<and> bitAt b j})"
    unfolding rank_loop_sum c popcount_of_nat [of "push_bit (64 - ?y) (b ! ?x)"] by simp
  then show ?thesis
    using xl by (simp add: Rank_def Let_def x y)
qed

lemma IsSet_bitAt:
  assumes "unat j < length b * 64"
  shows "IsSet b j = Inr (bitAt b (unat j))"
proof -
  have xl: "unat j div 64 < length b" using assms by auto
  have "(1 = (1 AND w)) = odd w" for w :: u64
    by (auto simp: one_and_eq mod_2_eq_odd dest: sym)
  then show ?thesis
    using xl by (simp add: IsSet_def Let_def unat_div unat_mod bitAt_def bit_iff_odd_drop_bit)
qed

lemma unat_Size_le: "unat (Size b) \<le> length b * 64"
proof -
  have "unat (Size b) = (length b * 64) mod 2 ^ 64"
    by (simp add: Size_def unat_word_ariths unat_of_nat mod_mult_left_eq)
  then show ?thesis by simp
qed

text \<open>
  Claim C10.  For every bit vector \<open>b\<close> and every index \<open>i < b.Size()\<close>, \<open>Rank(i)\<close> returns
  (without panic and without wrap-around) exactly the number of indices \<open>j < i\<close> whose bit
  is set, as \<open>IsSet\<close> reports it.  The statement covers \<open>i mod 64 = 0\<close>, where the code
  shifts word \<open>i / 64\<close> left by 64 and so adds nothing for that word.
\<close>

theorem Rank_counts_bits_below:
  assumes "i < Size b"
  shows "map_sum id unat (Rank b i) = Inr (card {j. j < i \<and> IsSet b j = Inr True})"
proof -
  have il: "unat i < length b * 64"
    using assms unat_Size_le [of b] by (simp add: word_less_nat_alt)
  have img: "unat ` {j. j < i \<and> IsSet b j = Inr True} = {n. n < unat i \<and> bitAt b n}"
  proof (rule set_eqI, rule iffI)
    fix n assume "n \<in> unat ` {j. j < i \<and> IsSet b j = Inr True}"
    then obtain j where j: "j < i" "IsSet b j = Inr True" "n = unat j" by auto
    have "unat j < length b * 64" using j(1) il by (simp add: word_less_nat_alt)
    then show "n \<in> {n. n < unat i \<and> bitAt b n}"
      using j by (simp add: IsSet_bitAt word_less_nat_alt)
  next
    fix n assume "n \<in> {n. n < unat i \<and> bitAt b n}"
    then have n: "n < unat i" "bitAt b n" by auto
    have "unat i < 2 ^ 64" using unsigned_less [of i, where 'a = nat] by simp
    then have n64: "n < 2 ^ 64" using n(1) by simp
    then have u: "unat (of_nat n :: u64) = n" by (simp add: unat_of_nat)
    have "(of_nat n :: u64) < i" using n(1) u by (simp add: word_less_nat_alt)
    moreover have "IsSet b (of_nat n) = Inr True"
      using n il u by (simp add: IsSet_bitAt)
    ultimately show "n \<in> unat ` {j. j < i \<and> IsSet b j = Inr True}"
      using u by force
  qed
  have "card (unat ` {j. j < i \<and> IsSet b j = Inr True}) = card {j. j < i \<and> IsSet b j = Inr True}"
    by (rule card_image) (auto simp: inj_on_def intro: unsigned_word_eqI)
  then have c: "card {j. j < i \<and> IsSet b j = Inr True} = card {n. n < unat i \<and> bitAt b n}"
    by (simp add: img)
  have "card {n. n < unat i \<and> bitAt b n} \<le> unat i" by (rule count_le)
  moreover have "unat i < 2 ^ 64" using unsigned_less [of i, where 'a = nat] by simp
  ultimately have "card {n. n < unat i \<and> bitAt b n} < 2 ^ 64" by simp
  then show ?thesis
    by (simp add: Rank_nat [OF il] c unat_of_nat)
qed

theorem Rank_counts_bits_below_witness:
  "(64 :: u64) < Size [5, 3] \<and>
   map_sum id unat (Rank [5, 3] 64) = Inr (card {j. j < 64 \<and> IsSet [5, 3] j = Inr True})"
  using Rank_counts_bits_below [of 64 "[5, 3]"] by (simp add: Size_def)

section \<open>Properties of the BBHash rank table\<close>










end
